theory Spec2Isabelle
  imports Complex_Main "HOL-Library.AList" "HOL-Library.Multiset"
begin

section \<open>Python values, strings and dictionaries\<close>

text \<open>
  Strings are lists of 8-bit characters, read as the code points U+0000 to U+00FF.
  Argument values are the JSON scalars that the tool schemas and the benchmark cases
  use: strings, integers, booleans and \<open>None\<close>. Floating-point argument values are
  not modelled. A dictionary is an association list in insertion order whose keys are
  distinct; \<open>d[k] = v\<close> is \<open>AList.update k v d\<close>, \<open>d.get(k, dflt)\<close> is
  \<open>dict_get d k dflt\<close>, \<open>k in d\<close> is \<open>map_of d k \<noteq> None\<close> and \<open>d.items()\<close> is
  the list itself.
\<close>

datatype pyval = VStr string | VInt int | VBool bool | VNone

type_synonym dict = "(string \<times> pyval) list"

definition dict_get :: "dict \<Rightarrow> string \<Rightarrow> pyval \<Rightarrow> pyval" where
  "dict_get d k dflt = (case map_of d k of None \<Rightarrow> dflt | Some v \<Rightarrow> v)"

text \<open>Python's \<open>==\<close> on these values: \<open>True == 1\<close> and \<open>False == 0\<close> hold.\<close>

fun py_eq :: "pyval \<Rightarrow> pyval \<Rightarrow> bool" where
  "py_eq (VStr a) (VStr b) = (a = b)"
| "py_eq (VInt a) (VInt b) = (a = b)"
| "py_eq (VBool a) (VBool b) = (a = b)"
| "py_eq (VInt a) (VBool b) = (a = (if b then 1 else 0))"
| "py_eq (VBool a) (VInt b) = (b = (if a then 1 else 0))"
| "py_eq VNone VNone = True"
| "py_eq _ _ = False"

text \<open>Truthiness, as \<open>not v\<close> and \<open>if v\<close> read it.\<close>

fun truthy :: "pyval \<Rightarrow> bool" where
  "truthy (VStr s) = (s \<noteq> [])"
| "truthy (VInt n) = (n \<noteq> 0)"
| "truthy (VBool b) = b"
| "truthy VNone = False"

text \<open>
  \<open>str.strip()\<close> removes the characters for which \<open>str.isspace\<close> holds: below U+0100
  these are U+0009 to U+000D, U+001C to U+0020, U+0085 and U+00A0.
\<close>

definition is_space :: "char \<Rightarrow> bool" where
  "is_space c = (let n = (of_char c :: nat) in
     (9 \<le> n \<and> n \<le> 13) \<or> (28 \<le> n \<and> n \<le> 32) \<or> n = 133 \<or> n = 160)"

definition lstrip :: "string \<Rightarrow> string" where
  "lstrip s = dropWhile is_space s"

definition rstrip :: "string \<Rightarrow> string" where
  "rstrip s = rev (dropWhile is_space (rev s))"

definition strip :: "string \<Rightarrow> string" where
  "strip s = rstrip (lstrip s)"

text \<open>\<open>s.rstrip(chars)\<close> for a given set of characters.\<close>

definition rstrip_chars :: "string \<Rightarrow> string \<Rightarrow> string" where
  "rstrip_chars chars s = rev (dropWhile (\<lambda>c. c \<in> set chars) (rev s))"

text \<open>
  \<open>str.lower()\<close>: below U+0100 the upper-case letters are A to Z and U+00C0 to U+00DE
  without the multiplication sign U+00D7; each is 32 below its lower-case letter.
\<close>

definition is_upper :: "char \<Rightarrow> bool" where
  "is_upper c = (let n = (of_char c :: nat) in
     (65 \<le> n \<and> n \<le> 90) \<or> (192 \<le> n \<and> n \<le> 222 \<and> n \<noteq> 215))"

definition lower_char :: "char \<Rightarrow> char" where
  "lower_char c = (if is_upper c then char_of ((of_char c :: nat) + 32) else c)"

definition lower :: "string \<Rightarrow> string" where
  "lower s = map lower_char s"

section \<open>benchmark.py: matching predicted calls against expected calls\<close>

text \<open>
  A function call is a dictionary with the key \<open>name\<close> and, optionally, the key
  \<open>arguments\<close>: the code reads the first as \<open>call["name"]\<close> and the second as
  \<open>call.get("arguments", {})\<close>.
\<close>

record call =
  name :: string
  arguments :: "dict option"

definition get_arguments :: "call \<Rightarrow> dict" where
  "get_arguments c = (case arguments c of None \<Rightarrow> [] | Some a \<Rightarrow> a)"

definition normalize_val :: "pyval \<Rightarrow> pyval" where
  "normalize_val v = (case v of VStr s \<Rightarrow> VStr (lower (strip s)) | _ \<Rightarrow> v)"

text \<open>The loop of \<open>_call_matches\<close> over \<open>exp_args.items()\<close>, with its two early returns.\<close>

fun args_loop :: "dict \<Rightarrow> dict \<Rightarrow> bool" where
  "args_loop pred_args [] = True"
| "args_loop pred_args ((key, exp_val) # rest) =
     (case map_of pred_args key of
        None \<Rightarrow> False
      | Some pred_val \<Rightarrow>
          if \<not> py_eq (normalize_val pred_val) (normalize_val exp_val) then False
          else args_loop pred_args rest)"

definition call_matches :: "call \<Rightarrow> call \<Rightarrow> bool" where
  "call_matches predicted expected =
     (if name predicted \<noteq> name expected then False
      else args_loop (get_arguments predicted) (get_arguments expected))"

text \<open>
  \<open>compute_f1\<close>: the inner loop scans \<open>enumerate(predicted_calls)\<close> and stops at the
  first index that is not in \<open>used\<close> and whose call matches; the outer loop runs over
  \<open>expected_calls\<close> and carries \<open>matched\<close> and \<open>used\<close>. Python's floats are read as
  real numbers.
\<close>

fun first_unused_match :: "nat set \<Rightarrow> call \<Rightarrow> (nat \<times> call) list \<Rightarrow> nat option" where
  "first_unused_match used exp_call [] = None"
| "first_unused_match used exp_call ((i, pred_call) # rest) =
     (if i \<notin> used \<and> call_matches pred_call exp_call then Some i
      else first_unused_match used exp_call rest)"

fun match_loop :: "call list \<Rightarrow> call list \<Rightarrow> nat \<times> nat set \<Rightarrow> nat \<times> nat set" where
  "match_loop predicted_calls [] (matched, used) = (matched, used)"
| "match_loop predicted_calls (exp_call # rest) (matched, used) =
     (case first_unused_match used exp_call (enumerate 0 predicted_calls) of
        None \<Rightarrow> match_loop predicted_calls rest (matched, used)
      | Some i \<Rightarrow> match_loop predicted_calls rest (matched + 1, insert i used))"

definition f1_of_matched :: "nat \<Rightarrow> nat \<Rightarrow> nat \<Rightarrow> real" where
  "f1_of_matched matched n_predicted n_expected =
     (let precision = real matched / real n_predicted;
          recall = real matched / real n_expected
      in if precision + recall = 0 then 0
         else 2 * precision * recall / (precision + recall))"

definition compute_f1 :: "call list \<Rightarrow> call list \<Rightarrow> real" where
  "compute_f1 predicted_calls expected_calls =
     (if predicted_calls = [] \<and> expected_calls = [] then 1
      else if predicted_calls = [] \<or> expected_calls = [] then 0
      else f1_of_matched (fst (match_loop predicted_calls expected_calls (0, {})))
             (length predicted_calls) (length expected_calls))"

subsection \<open>The reference definitions of the specification\<close>

text \<open>
  Two values are normalized-equal when, for strings, their lower-cased and trimmed
  forms are the same string, and, for other values, they are equal as Python values.
\<close>

definition spec_normalized_equal :: "pyval \<Rightarrow> pyval \<Rightarrow> bool" where
  "spec_normalized_equal a b =
     (case (a, b) of
        (VStr x, VStr y) \<Rightarrow> lower (strip x) = lower (strip y)
      | (VStr x, _) \<Rightarrow> False
      | (_, VStr y) \<Rightarrow> False
      | _ \<Rightarrow> py_eq a b)"

definition spec_matches :: "call \<Rightarrow> call \<Rightarrow> bool" where
  "spec_matches predicted expected =
     (name predicted = name expected \<and>
      list_all (\<lambda>(key, exp_val).
          \<exists>pred_val. map_of (get_arguments predicted) key = Some pred_val \<and>
            spec_normalized_equal pred_val exp_val)
        (get_arguments expected))"

text \<open>
  The greedy matching in the specification's words: for each expected call in order, the
  first position of \<open>predicted\<close> that is not yet used and matches is marked used; the
  matched count is the number of marked positions.
\<close>

definition spec_first_unused :: "call list \<Rightarrow> nat set \<Rightarrow> call \<Rightarrow> nat option" where
  "spec_first_unused predicted used e =
     List.find (\<lambda>i. i \<notin> used \<and> spec_matches (predicted ! i) e) [0..<length predicted]"

fun spec_mark :: "call list \<Rightarrow> call list \<Rightarrow> nat set \<Rightarrow> nat set" where
  "spec_mark predicted [] used = used"
| "spec_mark predicted (e # es) used =
     (case spec_first_unused predicted used e of
        None \<Rightarrow> spec_mark predicted es used
      | Some i \<Rightarrow> spec_mark predicted es (insert i used))"

definition spec_matched :: "call list \<Rightarrow> call list \<Rightarrow> nat" where
  "spec_matched predicted expected = card (spec_mark predicted expected {})"

definition spec_f1 :: "call list \<Rightarrow> call list \<Rightarrow> real" where
  "spec_f1 predicted expected =
     (if predicted = [] \<and> expected = [] then 1
      else if (predicted = []) \<noteq> (expected = []) then 0
      else let p = real (spec_matched predicted expected) / real (length predicted);
               r = real (spec_matched predicted expected) / real (length expected)
           in if p + r = 0 then 0 else 2 * p * r / (p + r))"

text \<open>
  One round of the outer loop of \<open>compute_f1\<close> as a function of the loop state, and the
  condition under which the rounds of two expected calls can be exchanged: every two
  expected calls are matched by exactly the same predicted calls, or by no common one.
\<close>

definition match_step :: "call list \<Rightarrow> call \<Rightarrow> nat \<times> nat set \<Rightarrow> nat \<times> nat set" where
  "match_step predicted_calls exp_call st =
     (case first_unused_match (snd st) exp_call (enumerate 0 predicted_calls) of
        None \<Rightarrow> st
      | Some i \<Rightarrow> (fst st + 1, insert i (snd st)))"

definition same_or_disjoint :: "call list \<Rightarrow> call list \<Rightarrow> bool" where
  "same_or_disjoint predicted_calls expected_calls =
     (\<forall>e1 \<in> set expected_calls. \<forall>e2 \<in> set expected_calls.
        (\<forall>p \<in> set predicted_calls. call_matches p e1 = call_matches p e2) \<or>
        (\<forall>p \<in> set predicted_calls. \<not> (call_matches p e1 \<and> call_matches p e2)))"

subsection \<open>The composite score\<close>

text \<open>
  One entry of the \<open>results\<close> list that \<open>run_benchmark\<close> builds and
  \<open>compute_total_score\<close> reads.
\<close>

record bench_result =
  b_name :: string
  b_difficulty :: string
  b_total_time_ms :: real
  b_f1 :: real
  b_source :: string
  b_predicted :: "call list"
  b_expected :: "call list"

definition difficulty_weights :: "(string \<times> real) list" where
  "difficulty_weights = [(''easy'', 0.20), (''medium'', 0.30), (''hard'', 0.50)]"

definition time_baseline_ms :: real where
  "time_baseline_ms = 500"

text \<open>
  The loop of \<open>compute_total_score\<close> over \<open>difficulty_weights.items()\<close>; an empty group
  is skipped by \<open>continue\<close>.
\<close>

fun score_loop :: "bench_result list \<Rightarrow> (string \<times> real) list \<Rightarrow> real \<Rightarrow> real" where
  "score_loop results [] total_score = total_score"
| "score_loop results ((difficulty, weight) # rest) total_score =
     (let group = filter (\<lambda>r. b_difficulty r = difficulty) results in
      if group = [] then score_loop results rest total_score
      else
        let avg_f1 = sum_list (map b_f1 group) / real (length group);
            avg_time = sum_list (map b_total_time_ms group) / real (length group);
            on_device_ratio =
              sum_list (map (\<lambda>r. 1) (filter (\<lambda>r. b_source r = ''on-device'') group))
                / real (length group);
            time_score = max 0 (1 - avg_time / time_baseline_ms);
            level_score = (0.60 * avg_f1) + (0.15 * time_score) + (0.25 * on_device_ratio)
        in score_loop results rest (total_score + weight * level_score))"

definition compute_total_score :: "bench_result list \<Rightarrow> real" where
  "compute_total_score results = score_loop results difficulty_weights 0 * 100"

text \<open>The composite score in the specification's words.\<close>

definition spec_mean :: "real list \<Rightarrow> real" where
  "spec_mean xs = sum_list xs / real (length xs)"

definition spec_time_score :: "real \<Rightarrow> real" where
  "spec_time_score avg_latency_ms = max 0 (1 - avg_latency_ms / 500)"

definition spec_tier_score :: "real \<Rightarrow> real \<Rightarrow> real \<Rightarrow> real" where
  "spec_tier_score avg_f1 avg_latency_ms on_device_ratio =
     0.60 * avg_f1 + 0.15 * spec_time_score avg_latency_ms + 0.25 * on_device_ratio"

definition spec_tier :: "bench_result list \<Rightarrow> string \<Rightarrow> bench_result list" where
  "spec_tier results tier = filter (\<lambda>r. b_difficulty r = tier) results"

definition spec_on_device_ratio :: "bench_result list \<Rightarrow> real" where
  "spec_on_device_ratio cases =
     real (length (filter (\<lambda>r. b_source r = ''on-device'') cases)) / real (length cases)"

definition spec_tier_term :: "bench_result list \<Rightarrow> string \<Rightarrow> real \<Rightarrow> real" where
  "spec_tier_term results tier weight =
     (if spec_tier results tier = [] then 0
      else weight * spec_tier_score
             (spec_mean (map b_f1 (spec_tier results tier)))
             (spec_mean (map b_total_time_ms (spec_tier results tier)))
             (spec_on_device_ratio (spec_tier results tier)))"

definition spec_total_score :: "bench_result list \<Rightarrow> real" where
  "spec_total_score results =
     100 * (spec_tier_term results ''easy'' 0.20 + spec_tier_term results ''medium'' 0.30
            + spec_tier_term results ''hard'' 0.50)"

section \<open>server.py: the keyword extractors\<close>

text \<open>
  Python's \<open>re\<close> module is a library outside this repository. The extractors take its
  function \<open>re.search\<close> as a parameter \<open>search\<close>: \<open>search pattern ignorecase text\<close> is
  \<open>None\<close> when the pattern is not found in the text and otherwise \<open>Some groups\<close>, the
  list of the match's groups with group 0 first; \<open>ignorecase\<close> says whether the call
  passes \<open>re.IGNORECASE\<close>. Patterns are the source's raw strings; a backslash is written
  \<open>bsl\<close>. Every pattern whose group 1 is read has that group in each of its matches.
\<close>

type_synonym regex_search = "string \<Rightarrow> bool \<Rightarrow> string \<Rightarrow> string list option"

definition bsl :: string where
  "bsl = [CHR 0x5C]"

definition group :: "string list \<Rightarrow> nat \<Rightarrow> string" where
  "group m i = (if i < length m then m ! i else [])"

text \<open>\<open>s.replace(old, new)\<close>: every occurrence of \<open>old\<close>, from the left, without overlap.\<close>

fun replace_from :: "string \<Rightarrow> string \<Rightarrow> nat \<Rightarrow> string \<Rightarrow> string" where
  "replace_from old new skip [] = (if skip = 0 \<and> old = [] then new else [])"
| "replace_from old new (Suc skip) (c # cs) = replace_from old new skip cs"
| "replace_from old new 0 (c # cs) =
     (if old = [] then new @ c # replace_from old new 0 cs
      else if take (length old) (c # cs) = old
        then new @ replace_from old new (length old - 1) cs
      else c # replace_from old new 0 cs)"

definition replace :: "string \<Rightarrow> string \<Rightarrow> string \<Rightarrow> string" where
  "replace s old new = replace_from old new 0 s"

fun join :: "string \<Rightarrow> string list \<Rightarrow> string" where
  "join sep [] = []"
| "join sep [x] = x"
| "join sep (x # y # ys) = x @ sep @ join sep (y # ys)"

text \<open>\<open>str(v)\<close> for an argument value.\<close>

definition digit_char :: "nat \<Rightarrow> char" where
  "digit_char d = char_of (48 + d)"

fun str_nat :: "nat \<Rightarrow> string" where
  "str_nat n = (if n < 10 then [digit_char n] else str_nat (n div 10) @ [digit_char (n mod 10)])"

definition py_str :: "pyval \<Rightarrow> string" where
  "py_str v =
     (case v of
        VStr s \<Rightarrow> s
      | VInt n \<Rightarrow> (if n < 0 then CHR ''-'' # str_nat (nat (- n)) else str_nat (nat n))
      | VBool b \<Rightarrow> (if b then ''True'' else ''False'')
      | VNone \<Rightarrow> ''None'')"

definition extract_diagnose_args :: "regex_search \<Rightarrow> string \<Rightarrow> dict" where
  "extract_diagnose_args search text =
     (let args = [(''symptoms'', VStr text)];
          loc_match = search
            (''(?:on|at|for)'' @ bsl @ ''s+(?:the'' @ bsl
               @ ''s+)?(.+?(?:door|lock|gate|entrance|exit))'') True text;
          args = (case loc_match of
                    Some m \<Rightarrow> AList.update ''location'' (VStr (strip (group m 1))) args
                  | None \<Rightarrow> args);
          type_match = search
            (''(deadbolt|knob'' @ bsl @ ''s*lock|mortise|padlock|smart'' @ bsl
               @ ''s*lock|lever|cylinder)'') True text;
          args = (case type_match of
                    Some m \<Rightarrow> AList.update ''lock_type'' (VStr (strip (group m 1))) args
                  | None \<Rightarrow> args)
      in args)"

definition extract_report_args :: "regex_search \<Rightarrow> string \<Rightarrow> dict" where
  "extract_report_args search text =
     (let args = [(''service_type'', VStr ''service'')];
          name_match = search
            (''(?:for|customer|client)'' @ bsl @ ''s+([A-Z][a-z]+(?:'' @ bsl
               @ ''s+[A-Z][a-z]+)?)'') False text;
          args = (case name_match of
                    Some m \<Rightarrow> AList.update ''customer_name'' (VStr (strip (group m 1))) args
                  | None \<Rightarrow> AList.update ''customer_name'' (VStr ''Customer'') args);
          svc_match = search
            (''(rekey|lockout|lock'' @ bsl @ ''s*change|install|repair|master'' @ bsl
               @ ''s*key)'') True text;
          args = (case svc_match of
                    Some m \<Rightarrow> AList.update ''service_type'' (VStr (strip (group m 1))) args
                  | None \<Rightarrow> args)
      in args)"

definition extract_checklist_args :: "regex_search \<Rightarrow> string \<Rightarrow> dict" where
  "extract_checklist_args search text =
     (let jt_match = search
            (''(residential'' @ bsl @ ''s+rekey|commercial'' @ bsl @ ''s+install|auto'' @ bsl
               @ ''s+lockout|rekey|lockout|install)'') True text
      in [(''job_type'',
           (case jt_match of Some m \<Rightarrow> VStr (strip (group m 1)) | None \<Rightarrow> VStr ''general''))])"

definition extract_part_args :: "regex_search \<Rightarrow> string \<Rightarrow> dict" where
  "extract_part_args search text =
     (let args = [(''query'', VStr text)];
          part_match = search
            (''(?:look'' @ bsl @ ''s*up|find|search'' @ bsl @ ''s+for)'' @ bsl @ ''s+(?:a'' @ bsl
               @ ''s+)?(.+?)(?:'' @ bsl @ ''s+for|'' @ bsl @ ''s*$)'') True text;
          args = (case part_match of
                    Some m \<Rightarrow>
                      AList.update ''query'' (VStr (rstrip_chars ''.'' (strip (group m 1)))) args
                  | None \<Rightarrow> args);
          brand_match = search
            ''(Schlage|Kwikset|Yale|Medeco|Mul-T-Lock|Baldwin|Sargent)'' True text;
          args = (case brand_match of
                    Some m \<Rightarrow> AList.update ''brand'' (VStr (strip (group m 1))) args
                  | None \<Rightarrow> args)
      in args)"

definition extract_followup_args :: "regex_search \<Rightarrow> string \<Rightarrow> dict" where
  "extract_followup_args search text =
     (let args = [(''date'', VStr ''TBD'')];
          name_match = search
            (''(?:with|for)'' @ bsl @ ''s+(?:Mrs?'' @ bsl @ ''.?'' @ bsl @ ''s+|Ms'' @ bsl @ ''.?''
               @ bsl @ ''s+)?([A-Z][a-z]+(?:'' @ bsl @ ''s+[A-Z][a-z]+)?)'') False text;
          args = (case name_match of
                    Some m \<Rightarrow>
                      AList.update ''customer_name''
                        (VStr (strip (replace (replace (group m 0) ''with '' '''') ''for '' ''''))) args
                  | None \<Rightarrow> AList.update ''customer_name'' (VStr ''Customer'') args);
          date_match = search
            (''(next'' @ bsl @ ''s+'' @ bsl
               @ ''w+|tomorrow|today|monday|tuesday|wednesday|thursday|friday|saturday|sunday|''
               @ bsl @ ''w+'' @ bsl @ ''s+'' @ bsl @ ''d{1,2})'') True text;
          args = (case date_match of
                    Some m \<Rightarrow> AList.update ''date'' (VStr (strip (group m 1))) args
                  | None \<Rightarrow> args);
          reason_match = search
            (''(?:for|to|about)'' @ bsl @ ''s+(.+?)(?:'' @ bsl @ ''s+next|'' @ bsl @ ''s+on|''
               @ bsl @ ''s*$)'') True text;
          args = (case reason_match of
                    Some m \<Rightarrow> AList.update ''reason'' (VStr (strip (group m 1))) args
                  | None \<Rightarrow> args)
      in args)"

definition extract_dispatch_args :: "regex_search \<Rightarrow> string \<Rightarrow> dict" where
  "extract_dispatch_args search text =
     (let args = [(''reason'', VStr text)];
          reason_match = search
            (''(?:need|require|requesting)'' @ bsl @ ''s+(.+?)(?:'' @ bsl @ ''.|$)'') True text;
          args = (case reason_match of
                    Some m \<Rightarrow> AList.update ''reason'' (VStr (strip (group m 1))) args
                  | None \<Rightarrow> args);
          args =
            (if search ''emergency|urgent|asap|immediately'' True text \<noteq> None
               then AList.update ''urgency'' (VStr ''emergency'') args
             else if search ''backup|help|assist'' True text \<noteq> None
               then AList.update ''urgency'' (VStr ''high'') args
             else AList.update ''urgency'' (VStr ''medium'') args)
      in args)"

definition extract_invoice_args :: "regex_search \<Rightarrow> string \<Rightarrow> dict" where
  "extract_invoice_args search text =
     (let args = [(''service_type'', VStr ''Locksmith Service'')];
          name_match = search
            (''(?:for|customer|client)'' @ bsl @ ''s+([A-Z][a-z]+(?:'' @ bsl
               @ ''s+[A-Z][a-z]+)*)'') False text;
          args =
            (case name_match of
               Some m \<Rightarrow> AList.update ''customer_name'' (VStr (strip (group m 1))) args
             | None \<Rightarrow>
                 (let cap_match = search
                        (''(?<!'' @ bsl @ ''w)([A-Z][a-z]+'' @ bsl @ ''s+[A-Z][a-z]+)'') False text
                  in case cap_match of
                       Some m \<Rightarrow> AList.update ''customer_name'' (VStr (strip (group m 1))) args
                     | None \<Rightarrow> AList.update ''customer_name'' (VStr ''Customer'') args));
          svc_match = search
            (''(rekey(?:ing)?|lockout|lock'' @ bsl @ ''s*change|install(?:ation)?|repair|master''
               @ bsl @ ''s*key|deadbolt|lock'' @ bsl @ ''s+replacement)'') True text;
          args = (case svc_match of
                    Some m \<Rightarrow> AList.update ''service_type'' (VStr (strip (group m 1))) args
                  | None \<Rightarrow> args);
          amt_match = search
            (bsl @ ''$['' @ bsl @ ''d,]+(?:'' @ bsl @ ''.'' @ bsl @ ''d{2})?'') False text;
          args =
            (case amt_match of
               Some m \<Rightarrow>
                 (let raw = group m 0;
                      raw = (if CHR ''.'' \<notin> set raw then raw @ ''.00'' else raw)
                  in AList.update ''amount'' (VStr raw) args)
             | None \<Rightarrow> AList.update ''amount'' (VStr ''$150.00'') args);
          notes_match = search
            (''(?:notes?|memo|description)'' @ bsl @ ''s*:?'' @ bsl @ ''s*(.+?)(?:'' @ bsl
               @ ''.|$)'') True text;
          args = (case notes_match of
                    Some m \<Rightarrow> AList.update ''notes'' (VStr (strip (group m 1))) args
                  | None \<Rightarrow> args)
      in args)"

section \<open>server.py: argument enrichment\<close>

definition EXTRACTORS :: "string \<Rightarrow> (regex_search \<Rightarrow> string \<Rightarrow> dict) option" where
  "EXTRACTORS = map_of
     [(''diagnose_lock_fault'', extract_diagnose_args),
      (''log_service_report'', extract_report_args),
      (''generate_checklist'', extract_checklist_args),
      (''lookup_part'', extract_part_args),
      (''schedule_followup'', extract_followup_args),
      (''contact_dispatch'', extract_dispatch_args),
      (''generate_invoice'', extract_invoice_args)]"

definition DEFAULT_VALUES :: "string set" where
  "DEFAULT_VALUES = {'''', ''Customer'', ''Locksmith Service'', ''unknown'', ''none'', ''N/A''}"

text \<open>The loop of \<open>_enrich_arguments\<close> over \<open>extracted.items()\<close>; it assigns into \<open>args\<close>.\<close>

fun enrich_loop :: "dict \<Rightarrow> dict \<Rightarrow> dict" where
  "enrich_loop args [] = args"
| "enrich_loop args ((key, val) # rest) =
     (let existing = dict_get args key (VStr '''') in
      if \<not> truthy existing \<or> strip (py_str existing) \<in> DEFAULT_VALUES
        then enrich_loop (AList.update key val args) rest
      else enrich_loop args rest)"

definition enrich_arguments :: "regex_search \<Rightarrow> string \<Rightarrow> dict \<Rightarrow> string \<Rightarrow> dict" where
  "enrich_arguments search nm args user_text =
     (case EXTRACTORS nm of
        None \<Rightarrow> args
      | Some extractor \<Rightarrow> enrich_loop args (extractor search user_text))"

text \<open>
  The fill condition in the specification's words: the existing value is absent, empty,
  or equal to a known placeholder value when both are lower-cased and trimmed.
\<close>

definition spec_is_placeholder :: "pyval \<Rightarrow> bool" where
  "spec_is_placeholder v = (\<exists>d \<in> DEFAULT_VALUES. spec_normalized_equal v (VStr d))"

definition spec_fillable :: "pyval option \<Rightarrow> bool" where
  "spec_fillable existing =
     (case existing of
        None \<Rightarrow> True
      | Some v \<Rightarrow> v = VStr '''' \<or> v = VNone \<or> spec_is_placeholder v)"

text \<open>
  The fill condition of the code: the existing value is absent, falsy, or its string
  form without leading and trailing whitespace is one of \<open>_DEFAULT_VALUES\<close>.
\<close>

definition fillable :: "pyval option \<Rightarrow> bool" where
  "fillable existing =
     (case existing of
        None \<Rightarrow> True
      | Some v \<Rightarrow> \<not> truthy v \<or> strip (py_str v) \<in> DEFAULT_VALUES)"

section \<open>server.py: the keyword fallback\<close>

text \<open>
  A message is a dictionary read as \<open>m["content"]\<close> and \<open>m.get("role")\<close>; a tool schema
  is read only as \<open>t["name"]\<close> (its parameter schema is left out). The result of a router
  is a dictionary read with \<open>.get\<close>, so each of its keys may be missing.
\<close>

record message =
  role :: "string option"
  content :: string

record tool =
  tool_name :: string
  description :: string

record routing_result =
  function_calls :: "call list option"
  total_time_ms :: "real option"
  source :: "string option"

definition user_text_of :: "message list \<Rightarrow> string" where
  "user_text_of messages =
     join '' '' (map content (filter (\<lambda>m. role m = Some ''user'') messages))"

definition patterns :: "(string \<times> string \<times> (regex_search \<Rightarrow> string \<Rightarrow> dict) \<times> bool) list" where
  "patterns =
     [(''diagnos|jammed|stuck|broken|won.?t turn|fault|malfunction|not working|lock issue'',
       ''diagnose_lock_fault'', extract_diagnose_args, False),
      (''log'' @ bsl @ ''s+service|service'' @ bsl @ ''s+report|report'' @ bsl
         @ ''s+for|completed|finished'' @ bsl @ ''s+job'',
       ''log_service_report'', extract_report_args, False),
      (''checklist|pre.?job|safety'' @ bsl @ ''s+check'',
       ''generate_checklist'', extract_checklist_args, False),
      (''look'' @ bsl @ ''s*up|part|key'' @ bsl @ ''s*blank|hardware|component|model'' @ bsl
         @ ''s+number'',
       ''lookup_part'', extract_part_args, False),
      (''schedule|follow.?up|appointment|next'' @ bsl
         @ ''s+(monday|tuesday|wednesday|thursday|friday|saturday|sunday)'',
       ''schedule_followup'', extract_followup_args, False),
      (''dispatch|backup|emergency|reinforcement|send'' @ bsl @ ''s+help'',
       ''contact_dispatch'', extract_dispatch_args, False),
      (''invoice|bill|charge|receipt|payment'',
       ''generate_invoice'', extract_invoice_args, True)]"

text \<open>The loop of \<open>_keyword_fallback\<close> over \<open>patterns\<close>, carrying \<open>calls\<close> and \<open>needs_cloud\<close>.\<close>

fun fallback_loop ::
  "regex_search \<Rightarrow> string set \<Rightarrow> string \<Rightarrow> string
     \<Rightarrow> (string \<times> string \<times> (regex_search \<Rightarrow> string \<Rightarrow> dict) \<times> bool) list
     \<Rightarrow> call list \<times> bool \<Rightarrow> call list \<times> bool" where
  "fallback_loop search tool_names user_text text_lower [] (calls, needs_cloud) =
     (calls, needs_cloud)"
| "fallback_loop search tool_names user_text text_lower
     ((pattern, tname, extractor, is_cloud) # rest) (calls, needs_cloud) =
     (if tname \<in> tool_names \<and> search pattern False text_lower \<noteq> None
        then
          let args = extractor search user_text;
              calls = calls @ [\<lparr>name = tname, arguments = Some args\<rparr>];
              needs_cloud = (if is_cloud then True else needs_cloud)
          in fallback_loop search tool_names user_text text_lower rest (calls, needs_cloud)
      else fallback_loop search tool_names user_text text_lower rest (calls, needs_cloud))"

section \<open>server.py: the request handlers\<close>

text \<open>
  What the handlers do beyond computing a value is explicit. The environment \<open>env\<close>
  holds what the repository does not define or what performs input and output: the
  regular-expression search, the router \<open>generate_hybrid\<close> (\<open>None\<close> when it raises),
  the tool handlers behind \<open>execute_tool\<close> (their payload is opaque and may depend on
  the moment of the call), the readings of \<open>time.time()\<close> and \<open>time.strftime\<close> in the
  order they are taken, whether the speech model's files exist, what \<open>cactus_init\<close>
  returns, and the outcome of \<open>_do_transcribe\<close> (\<open>None\<close> when it raises). The state
  \<open>world\<close> holds the number of clock readings taken so far, the global \<open>_job_history\<close>, the
  global \<open>_whisper_model\<close>, and a log of the calls made to the router, the fallback
  extractor, the tool handlers and the transcription.
\<close>

datatype event = CallRouter | CallFallback | CallTool string | ReadAudio | CallTranscribe

record 'r executed =
  e_name :: string
  e_arguments :: dict
  e_result :: 'r

record 'r history_entry =
  h_name :: string
  h_arguments :: dict
  h_result :: 'r
  h_timestamp :: string
  h_source :: string
  h_latency_ms :: real

record 'r env =
  re_search :: regex_search
  generate_hybrid :: "message list \<Rightarrow> tool list \<Rightarrow> routing_result option"
  execute_tool :: "nat \<Rightarrow> string \<Rightarrow> dict \<Rightarrow> 'r"
  clock :: "nat \<Rightarrow> real"
  strftime :: "nat \<Rightarrow> string"
  model_path_exists :: bool
  cactus_init :: "nat option"
  do_transcribe :: "nat \<Rightarrow> string \<Rightarrow> (string \<times> real) option"

record 'r world =
  ticks :: nat
  job_history :: "'r history_entry list"
  whisper_model :: "nat option"
  trace :: "event list"

definition time_time :: "'r env \<Rightarrow> 'r world \<Rightarrow> real \<times> 'r world" where
  "time_time env w = (clock env (ticks w), w\<lparr>ticks := Suc (ticks w)\<rparr>)"

definition time_strftime :: "'r env \<Rightarrow> 'r world \<Rightarrow> string \<times> 'r world" where
  "time_strftime env w = (strftime env (ticks w), w\<lparr>ticks := Suc (ticks w)\<rparr>)"

definition log_event :: "event \<Rightarrow> 'r world \<Rightarrow> 'r world" where
  "log_event e w = w\<lparr>trace := trace w @ [e]\<rparr>"

definition run_tool :: "'r env \<Rightarrow> 'r world \<Rightarrow> string \<Rightarrow> dict \<Rightarrow> 'r \<times> 'r world" where
  "run_tool env w nm args =
     (execute_tool env (ticks w) nm args,
      (log_event (CallTool nm) w)\<lparr>ticks := Suc (ticks w)\<rparr>)"

text \<open>\<open>round(x, 1)\<close> on a real number: to the nearest tenth, a tie going to the even one.\<close>

definition round_half_even :: "real \<Rightarrow> int" where
  "round_half_even x =
     (let f = \<lfloor>x\<rfloor>; d = x - of_int f
      in if d < 1 / 2 then f else if 1 / 2 < d then f + 1 else if even f then f else f + 1)"

definition py_round1 :: "real \<Rightarrow> real" where
  "py_round1 x = of_int (round_half_even (x * 10)) / 10"

definition keyword_fallback ::
  "'r env \<Rightarrow> 'r world \<Rightarrow> message list \<Rightarrow> tool list \<Rightarrow> routing_result \<times> 'r world" where
  "keyword_fallback env w messages tools =
     (let w = log_event CallFallback w;
          user_text = user_text_of messages;
          text_lower = lower user_text;
          (start, w) = time_time env w;
          tool_names = set (map tool_name tools);
          (calls, needs_cloud) =
            fallback_loop (re_search env) tool_names user_text text_lower patterns ([], False);
          (finish, w) = time_time env w;
          elapsed = (finish - start) * 1000
      in (\<lparr>function_calls = Some calls, total_time_ms = Some elapsed,
           source = Some (if needs_cloud then ''cloud'' else ''on-device'')\<rparr>, w))"

text \<open>
  The \<open>try\<close> block of both handlers: \<open>generate_hybrid\<close> is called, and when it raises
  the keyword fallback answers.
\<close>

definition route_with_fallback ::
  "'r env \<Rightarrow> 'r world \<Rightarrow> message list \<Rightarrow> tool list \<Rightarrow> routing_result \<times> 'r world" where
  "route_with_fallback env w messages tools =
     (let w = log_event CallRouter w
      in case generate_hybrid env messages tools of
           Some result \<Rightarrow> (result, w)
         | None \<Rightarrow> keyword_fallback env w messages tools)"

definition result_calls :: "routing_result \<Rightarrow> call list" where
  "result_calls result = (case function_calls result of None \<Rightarrow> [] | Some cs \<Rightarrow> cs)"

definition result_source :: "routing_result \<Rightarrow> string" where
  "result_source result = (case source result of None \<Rightarrow> ''unknown'' | Some s \<Rightarrow> s)"

text \<open>The enrichment loop of both handlers: each call's \<open>arguments\<close> is assigned anew.\<close>

definition enrich_call :: "regex_search \<Rightarrow> string \<Rightarrow> call \<Rightarrow> call" where
  "enrich_call search user_text c =
     c\<lparr>arguments := Some (enrich_arguments search (name c) (get_arguments c) user_text)\<rparr>"

definition LOCKSMITH_TOOLS :: "tool list" where
  "LOCKSMITH_TOOLS =
     [\<lparr>tool_name = ''diagnose_lock_fault'',
       description = ''Diagnose a lock or door hardware fault based on symptoms described by the locksmith''\<rparr>,
      \<lparr>tool_name = ''log_service_report'',
       description = ''Log a completed service report for a locksmith job''\<rparr>,
      \<lparr>tool_name = ''generate_checklist'',
       description = ''Generate a pre-job or safety checklist for a locksmith task''\<rparr>,
      \<lparr>tool_name = ''lookup_part'',
       description = ''Look up a lock part, key blank, or hardware component by name or model number''\<rparr>,
      \<lparr>tool_name = ''schedule_followup'',
       description = ''Schedule a follow-up appointment with a customer''\<rparr>,
      \<lparr>tool_name = ''contact_dispatch'',
       description = ''Contact dispatch for backup, additional tools, or emergency coordination''\<rparr>,
      \<lparr>tool_name = ''generate_invoice'',
       description = ''Generate a professional PDF invoice for a completed locksmith service job''\<rparr>]"

record hybrid_request =
  req_messages :: "message list"
  req_tools :: "tool list option"

record 'r hybrid_response =
  r_function_calls :: "'r executed list"
  r_source :: string
  r_latency_ms :: real

text \<open>
  The execution loop of \<open>hybrid_endpoint\<close>: each call is executed, its entry joins
  \<open>executed\<close>, and the entry with timestamp, source and latency joins \<open>_job_history\<close>.
\<close>

fun hybrid_exec_loop ::
  "'r env \<Rightarrow> string \<Rightarrow> real \<Rightarrow> call list \<Rightarrow> 'r executed list \<Rightarrow> 'r world
     \<Rightarrow> 'r executed list \<times> 'r world" where
  "hybrid_exec_loop env src elapsed [] executed w = (executed, w)"
| "hybrid_exec_loop env src elapsed (c # rest) executed w =
     (let (tool_result, w) = run_tool env w (name c) (get_arguments c);
          executed = executed @
            [\<lparr>e_name = name c, e_arguments = get_arguments c, e_result = tool_result\<rparr>];
          (stamp, w) = time_strftime env w;
          w = w\<lparr>job_history := job_history w @
                [\<lparr>h_name = name c, h_arguments = get_arguments c, h_result = tool_result,
                  h_timestamp = stamp, h_source = src, h_latency_ms = py_round1 elapsed\<rparr>]\<rparr>
      in hybrid_exec_loop env src elapsed rest executed w)"

definition hybrid_endpoint ::
  "'r env \<Rightarrow> 'r world \<Rightarrow> hybrid_request \<Rightarrow> 'r hybrid_response \<times> 'r world" where
  "hybrid_endpoint env w req =
     (let tools = (case req_tools req of
                     None \<Rightarrow> LOCKSMITH_TOOLS
                   | Some ts \<Rightarrow> if ts = [] then LOCKSMITH_TOOLS else ts);
          (start, w) = time_time env w;
          (result, w) = route_with_fallback env w (req_messages req) tools;
          (finish, w) = time_time env w;
          elapsed = (finish - start) * 1000;
          user_text = user_text_of (req_messages req);
          calls = map (enrich_call (re_search env) user_text) (result_calls result);
          (executed, w) = hybrid_exec_loop env (result_source result) elapsed calls [] w
      in (\<lparr>r_function_calls = executed, r_source = result_source result,
           r_latency_ms = py_round1 elapsed\<rparr>, w))"

text \<open>\<open>_get_whisper\<close>: the model is created on first use, when its files exist.\<close>

definition get_whisper :: "'r env \<Rightarrow> 'r world \<Rightarrow> nat option \<times> 'r world" where
  "get_whisper env w =
     (let w = (if whisper_model w = None \<and> model_path_exists env
               then w\<lparr>whisper_model := cactus_init env\<rparr> else w)
      in (whisper_model w, w))"

record 'r voice_response =
  transcription :: string
  transcribe_latency_ms :: real
  v_function_calls :: "'r executed list"
  v_source :: string
  routing_latency_ms :: real

text \<open>The execution loop of \<open>process_voice_endpoint\<close>.\<close>

fun voice_exec_loop ::
  "'r env \<Rightarrow> call list \<Rightarrow> 'r executed list \<Rightarrow> 'r world \<Rightarrow> 'r executed list \<times> 'r world" where
  "voice_exec_loop env [] executed w = (executed, w)"
| "voice_exec_loop env (c # rest) executed w =
     (let (tool_result, w) = run_tool env w (name c) (get_arguments c);
          executed = executed @
            [\<lparr>e_name = name c, e_arguments = get_arguments c, e_result = tool_result\<rparr>]
      in voice_exec_loop env rest executed w)"

text \<open>
  Step 1 of \<open>process_voice_endpoint\<close>: the transcription and its latency. Without a
  model the upload is read and the text is empty; when \<open>_do_transcribe\<close> raises, the text
  is empty and the latency keeps its initial value 0.
\<close>

definition voice_transcribe :: "'r env \<Rightarrow> 'r world \<Rightarrow> string \<Rightarrow> (string \<times> real) \<times> 'r world" where
  "voice_transcribe env w audio =
     (let (whisper, w) = get_whisper env w
      in case whisper of
           Some handle \<Rightarrow>
             (let w = log_event ReadAudio w;
                  w = log_event CallTranscribe w
              in case do_transcribe env handle audio of
                   Some (text, ms) \<Rightarrow> ((text, ms), w)
                 | None \<Rightarrow> (('''', 0), w))
         | None \<Rightarrow> (('''', 0), log_event ReadAudio w))"

definition process_voice_endpoint ::
  "'r env \<Rightarrow> 'r world \<Rightarrow> string \<Rightarrow> 'r voice_response \<times> 'r world" where
  "process_voice_endpoint env w audio =
     (let ((transcribe_text, transcribe_ms), w) = voice_transcribe env w audio
      in if transcribe_text = [] then
           (\<lparr>transcription = '''', transcribe_latency_ms = py_round1 transcribe_ms,
             v_function_calls = [], v_source = ''none'', routing_latency_ms = 0\<rparr>, w)
         else
           let messages = [\<lparr>role = Some ''user'', content = transcribe_text\<rparr>];
               (start, w) = time_time env w;
               (hybrid_result, w) = route_with_fallback env w messages LOCKSMITH_TOOLS;
               (finish, w) = time_time env w;
               routing_ms = (finish - start) * 1000;
               calls = map (enrich_call (re_search env) transcribe_text)
                         (result_calls hybrid_result);
               (executed, w) = voice_exec_loop env calls [] w
           in (\<lparr>transcription = transcribe_text,
                transcribe_latency_ms = py_round1 transcribe_ms,
                v_function_calls = executed, v_source = result_source hybrid_result,
                routing_latency_ms =
                  py_round1 (case total_time_ms hybrid_result of
                               None \<Rightarrow> routing_ms | Some t \<Rightarrow> t)\<rparr>, w))"

text \<open>
  The answers of \<open>re.search\<close> that the examples below need: on the text \<open>invoice\<close> the
  activation pattern of \<open>generate_invoice\<close> is found (its match is the whole text) and
  no other pattern of this file is; on the empty text no pattern of this file is found.
\<close>

definition example_search :: regex_search where
  "example_search pattern ignorecase text =
     (if text = ''invoice'' \<and> pattern = ''invoice|bill|charge|receipt|payment''
      then Some [''invoice''] else None)"

text \<open>
  The environments and the state of the examples below. In \<open>example_env\<close> the router
  raises, each clock reading is 40 ms after the one before, the speech model loads and the
  transcription is \<open>invoice\<close>. In \<open>example_router_env\<close> the router answers with one call and
  reports 5 ms of its own. In \<open>example_silent_env\<close> the speech model's files are missing.
\<close>

definition example_env :: "unit env" where
  "example_env =
     \<lparr>re_search = example_search,
      generate_hybrid = (\<lambda>messages tools. None),
      execute_tool = (\<lambda>tick nm args. ()),
      clock = (\<lambda>n. real n * 0.04),
      strftime = (\<lambda>n. ''2026-01-01 10:00:00''),
      model_path_exists = True,
      cactus_init = Some 1,
      do_transcribe = (\<lambda>handle audio. Some (''invoice'', 35))\<rparr>"

definition example_router_env :: "unit env" where
  "example_router_env =
     example_env\<lparr>generate_hybrid := (\<lambda>messages tools.
        Some \<lparr>function_calls =
                Some [\<lparr>name = ''generate_invoice'',
                       arguments = Some [(''customer_name'', VStr ''Sarah Miller'')]\<rparr>],
              total_time_ms = Some 5, source = Some ''on-device''\<rparr>)\<rparr>"

definition example_silent_env :: "unit env" where
  "example_silent_env = example_env\<lparr>model_path_exists := False\<rparr>"

definition example_world :: "unit world" where
  "example_world = \<lparr>ticks = 0, job_history = [], whisper_model = None, trace = []\<rparr>"

section \<open>Matching and F1: proofs\<close>

lemma normalized_equal_eq:
  "py_eq (normalize_val a) (normalize_val b) = spec_normalized_equal a b"
  by (cases a; cases b) (simp_all add: normalize_val_def spec_normalized_equal_def)

lemma args_loop_iff:
  "args_loop pa ea \<longleftrightarrow>
     (\<forall>(key, exp_val) \<in> set ea. \<exists>pred_val. map_of pa key = Some pred_val \<and>
         spec_normalized_equal pred_val exp_val)"
  by (induction ea) (auto simp: normalized_equal_eq split: option.splits if_splits)

lemma call_matches_spec: "call_matches p e = spec_matches p e"
  by (auto simp: call_matches_def spec_matches_def args_loop_iff list_all_iff)

lemma lower_strip_example:
  "lower (strip '' San Francisco  '') = ''san francisco''"
  "lower (strip ''san francisco'') = ''san francisco''"
  by code_simp+

text \<open>
  C2. A predicted call matches an expected call if and only if the names are equal and
  every key of the expected arguments is present in the predicted arguments with a
  normalized-equal value: strings are compared lower-cased and trimmed, other values by
  Python equality. Keys that only the predicted call has play no role, and an expected
  key that the predicted call lacks makes the match fail.
\<close>

theorem call_matches_iff:
  "call_matches predicted expected \<longleftrightarrow>
     name predicted = name expected \<and>
     (\<forall>(key, exp_val) \<in> set (get_arguments expected).
        \<exists>pred_val. map_of (get_arguments predicted) key = Some pred_val \<and>
          spec_normalized_equal pred_val exp_val)"
  by (auto simp: call_matches_def args_loop_iff)

theorem call_matches_iff_witness:
  "call_matches
     \<lparr>name = ''get_weather'',
      arguments = Some [(''units'', VStr ''metric''), (''location'', VStr '' San Francisco  '')]\<rparr>
     \<lparr>name = ''get_weather'', arguments = Some [(''location'', VStr ''san francisco'')]\<rparr>
   \<and> \<not> call_matches
     \<lparr>name = ''get_weather'', arguments = Some [(''units'', VStr ''metric'')]\<rparr>
     \<lparr>name = ''get_weather'', arguments = Some [(''location'', VStr ''san francisco'')]\<rparr>"
  using
    call_matches_iff [of
      "\<lparr>name = ''get_weather'',
        arguments = Some [(''units'', VStr ''metric''), (''location'', VStr '' San Francisco  '')]\<rparr>"
      "\<lparr>name = ''get_weather'', arguments = Some [(''location'', VStr ''san francisco'')]\<rparr>"]
    call_matches_iff [of
      "\<lparr>name = ''get_weather'', arguments = Some [(''units'', VStr ''metric'')]\<rparr>"
      "\<lparr>name = ''get_weather'', arguments = Some [(''location'', VStr ''san francisco'')]\<rparr>"]
  by (simp add: get_arguments_def spec_normalized_equal_def lower_strip_example)

lemma first_unused_match_find:
  "first_unused_match used e (enumerate n xs) =
     List.find (\<lambda>i. i \<notin> used \<and> call_matches (xs ! (i - n)) e) [n..<n + length xs]"
proof (induction xs arbitrary: n)
  case Nil
  then show ?case by simp
next
  case (Cons x xs)
  have "[n..<n + length (x # xs)] = n # [Suc n..<Suc n + length xs]"
    by (simp add: upt_rec)
  moreover have
    "List.find (\<lambda>i. i \<notin> used \<and> call_matches ((x # xs) ! (i - n)) e) [Suc n..<Suc n + length xs]
     = List.find (\<lambda>i. i \<notin> used \<and> call_matches (xs ! (i - Suc n)) e) [Suc n..<Suc n + length xs]"
    by (rule find_cong) (auto simp: nth_Cons')
  ultimately show ?case using Cons.IH [of "Suc n"]
    by simp
qed

lemma first_unused_match_spec:
  "first_unused_match used e (enumerate 0 predicted) = spec_first_unused predicted used e"
  by (simp add: first_unused_match_find spec_first_unused_def call_matches_spec)

lemma first_unused_match_Some:
  assumes "first_unused_match used e (enumerate 0 predicted) = Some i"
  shows "i \<notin> used \<and> i < length predicted \<and> call_matches (predicted ! i) e"
  using assms by (auto simp: first_unused_match_find find_Some_iff)

lemma match_loop_spec:
  "finite used \<Longrightarrow> matched = card used \<Longrightarrow>
   match_loop predicted expected (matched, used) =
     (card (spec_mark predicted expected used), spec_mark predicted expected used)"
proof (induction expected arbitrary: matched used)
  case Nil
  then show ?case by simp
next
  case (Cons e es)
  show ?case
  proof (cases "first_unused_match used e (enumerate 0 predicted)")
    case None
    then show ?thesis using Cons by (simp add: first_unused_match_spec [symmetric])
  next
    case (Some i)
    then have "i \<notin> used" using first_unused_match_Some by blast
    then have "matched + 1 = card (insert i used)" using Cons.prems by simp
    then show ?thesis using Some Cons.IH [of "insert i used" "matched + 1"] Cons.prems
      by (simp add: first_unused_match_spec [symmetric])
  qed
qed

text \<open>
  C1. \<open>compute_f1\<close> is the reference definition: 1 when both lists are empty, 0 when
  exactly one is, and otherwise \<open>2pr/(p+r)\<close> (0 when \<open>p + r = 0\<close>) for the precision
  and recall of the greedy matched count, which walks the expected calls in order and
  marks for each the first predicted position that is not yet marked and matches.
\<close>

theorem compute_f1_refines: "compute_f1 predicted expected = spec_f1 predicted expected"
  by (auto simp: compute_f1_def spec_f1_def f1_of_matched_def spec_matched_def
      match_loop_spec Let_def)

lemma match_loop_fold:
  "match_loop predicted expected st = fold (match_step predicted) expected st"
  by (induction expected arbitrary: st)
     (auto simp: match_step_def split: option.splits prod.splits)

lemma first_unused_match_insert:
  assumes "\<not> call_matches (predicted ! i) e"
  shows "first_unused_match (insert i used) e (enumerate 0 predicted)
       = first_unused_match used e (enumerate 0 predicted)"
  unfolding first_unused_match_find
  by (rule find_cong) (use assms in auto)

lemma first_unused_match_same:
  assumes "\<forall>p \<in> set predicted. call_matches p e1 = call_matches p e2"
  shows "first_unused_match used e1 (enumerate 0 predicted)
       = first_unused_match used e2 (enumerate 0 predicted)"
  unfolding first_unused_match_find
  by (rule find_cong) (use assms in auto)

lemma match_step_same:
  assumes "\<forall>p \<in> set predicted. call_matches p e1 = call_matches p e2"
  shows "match_step predicted e1 = match_step predicted e2"
  by (rule ext) (simp add: match_step_def first_unused_match_same [OF assms])

lemma match_step_disjoint:
  assumes d: "\<forall>p \<in> set predicted. \<not> (call_matches p e1 \<and> call_matches p e2)"
  shows "match_step predicted e1 (match_step predicted e2 st)
       = match_step predicted e2 (match_step predicted e1 st)"
proof -
  obtain m used where st: "st = (m, used)" by (cases st)
  have keep1: "first_unused_match (insert j used) e1 (enumerate 0 predicted)
             = first_unused_match used e1 (enumerate 0 predicted)"
    if "first_unused_match used e2 (enumerate 0 predicted) = Some j" for j
  proof -
    from first_unused_match_Some [OF that]
    have "j < length predicted" "call_matches (predicted ! j) e2" by simp_all
    with d have "\<not> call_matches (predicted ! j) e1" by (metis nth_mem)
    then show ?thesis by (rule first_unused_match_insert)
  qed
  have keep2: "first_unused_match (insert i used) e2 (enumerate 0 predicted)
             = first_unused_match used e2 (enumerate 0 predicted)"
    if "first_unused_match used e1 (enumerate 0 predicted) = Some i" for i
  proof -
    from first_unused_match_Some [OF that]
    have "i < length predicted" "call_matches (predicted ! i) e1" by simp_all
    with d have "\<not> call_matches (predicted ! i) e2" by (metis nth_mem)
    then show ?thesis by (rule first_unused_match_insert)
  qed
  show ?thesis
    unfolding st
    by (cases "first_unused_match used e1 (enumerate 0 predicted)";
        cases "first_unused_match used e2 (enumerate 0 predicted)")
       (simp_all add: match_step_def keep1 keep2 insert_commute)
qed

lemma match_loop_permuted:
  assumes "mset expected' = mset expected" and sd: "same_or_disjoint predicted expected"
  shows "match_loop predicted expected' st = match_loop predicted expected st"
proof -
  have "fold (match_step predicted) expected st = fold (match_step predicted) expected' st"
  proof (rule fold_permuted_eq [where P = "\<lambda>_. True"])
    show "mset expected = mset expected'" using assms(1) by simp
  next
    fix x y z
    assume "x \<in> set expected" "y \<in> set expected"
    with sd have "(\<forall>p \<in> set predicted. call_matches p x = call_matches p y) \<or>
        (\<forall>p \<in> set predicted. \<not> (call_matches p x \<and> call_matches p y))"
      unfolding same_or_disjoint_def by blast
    then show "match_step predicted x (match_step predicted y z)
             = match_step predicted y (match_step predicted x z)"
    proof
      assume "\<forall>p \<in> set predicted. call_matches p x = call_matches p y"
      then have "match_step predicted x = match_step predicted y" by (rule match_step_same)
      then show ?thesis by simp
    next
      assume "\<forall>p \<in> set predicted. \<not> (call_matches p x \<and> call_matches p y)"
      then show ?thesis by (rule match_step_disjoint)
    qed
  qed simp_all
  then show ?thesis by (simp add: match_loop_fold)
qed

lemma alarm_matches:
  "call_matches \<lparr>name = ''set_alarm'', arguments = Some [(''hour'', VInt 10), (''minute'', VInt 0)]\<rparr>
     \<lparr>name = ''set_alarm'', arguments = Some [(''hour'', VInt 10)]\<rparr>"
  "\<not> call_matches \<lparr>name = ''set_alarm'', arguments = Some [(''hour'', VInt 10)]\<rparr>
     \<lparr>name = ''set_alarm'', arguments = Some [(''hour'', VInt 10), (''minute'', VInt 0)]\<rparr>"
  "call_matches \<lparr>name = ''set_alarm'', arguments = Some [(''hour'', VInt 10)]\<rparr>
     \<lparr>name = ''set_alarm'', arguments = Some [(''hour'', VInt 10)]\<rparr>"
  "call_matches \<lparr>name = ''set_alarm'', arguments = Some [(''hour'', VInt 10), (''minute'', VInt 0)]\<rparr>
     \<lparr>name = ''set_alarm'', arguments = Some [(''hour'', VInt 10), (''minute'', VInt 0)]\<rparr>"
  by (simp_all add: call_matches_def get_arguments_def normalize_val_def)

text \<open>
  C3, as stated, fails. With the predicted calls \<open>set_alarm(hour=10, minute=0)\<close>,
  \<open>set_alarm(hour=10)\<close> the expected list \<open>set_alarm(hour=10)\<close>,
  \<open>set_alarm(hour=10, minute=0)\<close> has matched count 1 and F1 1/2, because its first call
  takes the only predicted call that the second one could use; the same expected calls
  in the other order have matched count 2 and F1 1.
\<close>

theorem f1_permutation_counterexample:
  "mset [\<lparr>name = ''set_alarm'', arguments = Some [(''hour'', VInt 10), (''minute'', VInt 0)]\<rparr>,
         \<lparr>name = ''set_alarm'', arguments = Some [(''hour'', VInt 10)]\<rparr>]
   = mset [\<lparr>name = ''set_alarm'', arguments = Some [(''hour'', VInt 10)]\<rparr>,
           \<lparr>name = ''set_alarm'', arguments = Some [(''hour'', VInt 10), (''minute'', VInt 0)]\<rparr>]
   \<and> fst (match_loop
        [\<lparr>name = ''set_alarm'', arguments = Some [(''hour'', VInt 10), (''minute'', VInt 0)]\<rparr>,
         \<lparr>name = ''set_alarm'', arguments = Some [(''hour'', VInt 10)]\<rparr>]
        [\<lparr>name = ''set_alarm'', arguments = Some [(''hour'', VInt 10)]\<rparr>,
         \<lparr>name = ''set_alarm'', arguments = Some [(''hour'', VInt 10), (''minute'', VInt 0)]\<rparr>]
        (0, {})) = 1
   \<and> fst (match_loop
        [\<lparr>name = ''set_alarm'', arguments = Some [(''hour'', VInt 10), (''minute'', VInt 0)]\<rparr>,
         \<lparr>name = ''set_alarm'', arguments = Some [(''hour'', VInt 10)]\<rparr>]
        [\<lparr>name = ''set_alarm'', arguments = Some [(''hour'', VInt 10), (''minute'', VInt 0)]\<rparr>,
         \<lparr>name = ''set_alarm'', arguments = Some [(''hour'', VInt 10)]\<rparr>]
        (0, {})) = 2
   \<and> compute_f1
        [\<lparr>name = ''set_alarm'', arguments = Some [(''hour'', VInt 10), (''minute'', VInt 0)]\<rparr>,
         \<lparr>name = ''set_alarm'', arguments = Some [(''hour'', VInt 10)]\<rparr>]
        [\<lparr>name = ''set_alarm'', arguments = Some [(''hour'', VInt 10)]\<rparr>,
         \<lparr>name = ''set_alarm'', arguments = Some [(''hour'', VInt 10), (''minute'', VInt 0)]\<rparr>]
       = 1 / 2
   \<and> compute_f1
        [\<lparr>name = ''set_alarm'', arguments = Some [(''hour'', VInt 10), (''minute'', VInt 0)]\<rparr>,
         \<lparr>name = ''set_alarm'', arguments = Some [(''hour'', VInt 10)]\<rparr>]
        [\<lparr>name = ''set_alarm'', arguments = Some [(''hour'', VInt 10), (''minute'', VInt 0)]\<rparr>,
         \<lparr>name = ''set_alarm'', arguments = Some [(''hour'', VInt 10)]\<rparr>]
       = 1"
  by (simp add: compute_f1_def f1_of_matched_def alarm_matches enumerate_eq_zip upt_rec)

text \<open>
  C3, amended. For every predicted list and every permutation of the expected list, the
  matched count of the greedy matching and the returned F1 are those of the unpermuted
  list, provided that every two expected calls are matched by exactly the same predicted
  calls or by no common predicted call.
\<close>

theorem f1_permutation_invariant:
  assumes "mset expected' = mset expected" and "same_or_disjoint predicted expected"
  shows "fst (match_loop predicted expected' (0, {})) = fst (match_loop predicted expected (0, {}))
       \<and> compute_f1 predicted expected' = compute_f1 predicted expected"
proof -
  have len: "length expected' = length expected"
    using assms(1) by (rule mset_eq_length)
  then have "(expected' = []) = (expected = [])" by (metis length_0_conv)
  then show ?thesis
    using match_loop_permuted [OF assms] len by (simp add: compute_f1_def)
qed

lemma weather_message_matches:
  "call_matches \<lparr>name = ''get_weather'', arguments = Some [(''location'', VStr ''london'')]\<rparr>
     \<lparr>name = ''get_weather'', arguments = Some [(''location'', VStr ''london'')]\<rparr>"
  "\<not> call_matches \<lparr>name = ''get_weather'', arguments = Some [(''location'', VStr ''london'')]\<rparr>
     \<lparr>name = ''send_message'', arguments = Some [(''recipient'', VStr ''bob'')]\<rparr>"
  by (simp_all add: call_matches_def get_arguments_def normalize_val_def)

theorem f1_permutation_invariant_witness:
  "mset [\<lparr>name = ''get_weather'', arguments = Some [(''location'', VStr ''london'')]\<rparr>,
         \<lparr>name = ''send_message'', arguments = Some [(''recipient'', VStr ''bob'')]\<rparr>]
   = mset [\<lparr>name = ''send_message'', arguments = Some [(''recipient'', VStr ''bob'')]\<rparr>,
           \<lparr>name = ''get_weather'', arguments = Some [(''location'', VStr ''london'')]\<rparr>]
   \<and> same_or_disjoint
        [\<lparr>name = ''get_weather'', arguments = Some [(''location'', VStr ''london'')]\<rparr>]
        [\<lparr>name = ''send_message'', arguments = Some [(''recipient'', VStr ''bob'')]\<rparr>,
         \<lparr>name = ''get_weather'', arguments = Some [(''location'', VStr ''london'')]\<rparr>]
   \<and> compute_f1
        [\<lparr>name = ''get_weather'', arguments = Some [(''location'', VStr ''london'')]\<rparr>]
        [\<lparr>name = ''get_weather'', arguments = Some [(''location'', VStr ''london'')]\<rparr>,
         \<lparr>name = ''send_message'', arguments = Some [(''recipient'', VStr ''bob'')]\<rparr>]
     = compute_f1
        [\<lparr>name = ''get_weather'', arguments = Some [(''location'', VStr ''london'')]\<rparr>]
        [\<lparr>name = ''send_message'', arguments = Some [(''recipient'', VStr ''bob'')]\<rparr>,
         \<lparr>name = ''get_weather'', arguments = Some [(''location'', VStr ''london'')]\<rparr>]"
proof -
  have p: "mset [\<lparr>name = ''get_weather'', arguments = Some [(''location'', VStr ''london'')]\<rparr>,
         \<lparr>name = ''send_message'', arguments = Some [(''recipient'', VStr ''bob'')]\<rparr>]
   = mset [\<lparr>name = ''send_message'', arguments = Some [(''recipient'', VStr ''bob'')]\<rparr>,
           \<lparr>name = ''get_weather'', arguments = Some [(''location'', VStr ''london'')]\<rparr>]"
    by simp
  have d: "same_or_disjoint
        [\<lparr>name = ''get_weather'', arguments = Some [(''location'', VStr ''london'')]\<rparr>]
        [\<lparr>name = ''send_message'', arguments = Some [(''recipient'', VStr ''bob'')]\<rparr>,
         \<lparr>name = ''get_weather'', arguments = Some [(''location'', VStr ''london'')]\<rparr>]"
    by (simp add: same_or_disjoint_def weather_message_matches)
  show ?thesis
    using p d f1_permutation_invariant [OF p d] by blast
qed

section \<open>The composite score: proofs\<close>

lemma sum_ones: "sum_list (map (\<lambda>r. 1::real) xs) = real (length xs)"
  by (induction xs) simp_all

lemma score_loop_step:
  "score_loop results ((tier, weight) # rest) total_score =
     score_loop results rest (total_score + spec_tier_term results tier weight)"
  by (simp add: Let_def spec_tier_term_def spec_tier_def spec_tier_score_def spec_time_score_def
      spec_mean_def spec_on_device_ratio_def time_baseline_ms_def sum_ones mult.commute)

text \<open>
  C4. \<open>compute_total_score\<close> is 100 times the sum, over the tiers easy, medium and hard
  that have a case (weights 0.20, 0.30 and 0.50, an absent tier adding nothing and the
  weights staying as they are), of the weight times
  \<open>0.60 * avg_f1 + 0.15 * time_score + 0.25 * on_device_ratio\<close>, where
  \<open>time_score = max(0, 1 - avg_latency_ms / 500)\<close>, the averages are arithmetic means
  over the tier's cases and the ratio is the share of cases whose source is
  \<open>on-device\<close>. A tier with average F1 0.8, average latency 250 ms and on-device ratio
  0.5 has tier score 0.68; two hard cases with these averages alone score 34.
\<close>

theorem compute_total_score_spec:
  "compute_total_score results = spec_total_score results
   \<and> spec_tier_score 0.8 250 0.5 = 0.68
   \<and> compute_total_score
        [\<lparr>b_name = ''case_a'', b_difficulty = ''hard'', b_total_time_ms = 200, b_f1 = 0.6,
          b_source = ''on-device'', b_predicted = [], b_expected = []\<rparr>,
         \<lparr>b_name = ''case_b'', b_difficulty = ''hard'', b_total_time_ms = 300, b_f1 = 1,
          b_source = ''cloud'', b_predicted = [], b_expected = []\<rparr>] = 34"
proof -
  have "compute_total_score results = spec_total_score results"
    unfolding compute_total_score_def difficulty_weights_def spec_total_score_def score_loop_step
    by simp
  moreover have "spec_tier_score 0.8 250 0.5 = 0.68"
    by (simp add: spec_tier_score_def spec_time_score_def)
  moreover have "compute_total_score
        [\<lparr>b_name = ''case_a'', b_difficulty = ''hard'', b_total_time_ms = 200, b_f1 = 0.6,
          b_source = ''on-device'', b_predicted = [], b_expected = []\<rparr>,
         \<lparr>b_name = ''case_b'', b_difficulty = ''hard'', b_total_time_ms = 300, b_f1 = 1,
          b_source = ''cloud'', b_predicted = [], b_expected = []\<rparr>] = 34"
    by (simp add: compute_total_score_def difficulty_weights_def time_baseline_ms_def)
  ultimately show ?thesis by simp
qed

section \<open>Argument enrichment: proofs\<close>

lemma enrich_loop_Cons:
  "enrich_loop args ((key, val) # rest) =
     (if fillable (map_of args key) then enrich_loop (AList.update key val args) rest
      else enrich_loop args rest)"
  by (simp add: Let_def dict_get_def fillable_def split: option.splits)

lemma enrich_loop_untouched:
  "k \<notin> fst ` set ex \<Longrightarrow> map_of (enrich_loop args ex) k = map_of args k"
proof (induction ex arbitrary: args)
  case Nil
  then show ?case by simp
next
  case (Cons a ex)
  obtain key val where a: "a = (key, val)" by (cases a)
  from Cons.prems have "k \<noteq> key" "k \<notin> fst ` set ex" by (auto simp: a)
  then show ?case
    using Cons.IH by (simp add: a enrich_loop_Cons update_conv' del: enrich_loop.simps)
qed

lemma enrich_loop_lookup:
  "distinct (map fst ex) \<Longrightarrow>
   map_of (enrich_loop args ex) k =
     (if map_of ex k \<noteq> None \<and> fillable (map_of args k) then map_of ex k else map_of args k)"
proof (induction ex arbitrary: args)
  case Nil
  then show ?case by simp
next
  case (Cons a ex)
  obtain key val where a: "a = (key, val)" by (cases a)
  from Cons.prems have d: "distinct (map fst ex)" and nk: "key \<notin> fst ` set ex"
    by (simp_all add: a)
  show ?case
  proof (cases "k = key")
    case True
    have "map_of ex key = None" using nk by (simp add: map_of_eq_None_iff)
    then show ?thesis
      using True nk
      by (simp add: a enrich_loop_Cons enrich_loop_untouched update_conv' del: enrich_loop.simps)
  next
    case False
    then show ?thesis
      using Cons.IH [OF d] by (simp add: a enrich_loop_Cons update_conv' del: enrich_loop.simps)
  qed
qed

lemma enrich_loop_noop:
  "(\<forall>(k, v) \<in> set ex. \<not> fillable (map_of args k) \<or> map_of args k = Some v) \<Longrightarrow>
   enrich_loop args ex = args"
proof (induction ex arbitrary: args)
  case Nil
  then show ?case by simp
next
  case (Cons a ex)
  obtain key val where a: "a = (key, val)" by (cases a)
  from Cons.prems
  have rest: "\<forall>(k, v) \<in> set ex. \<not> fillable (map_of args k) \<or> map_of args k = Some v"
    and here: "\<not> fillable (map_of args key) \<or> map_of args key = Some val"
    by (simp_all add: a)
  from here have "fillable (map_of args key) \<Longrightarrow> AList.update key val args = args"
    by (simp add: update_triv)
  then show ?case
    using Cons.IH [OF rest] by (simp add: a enrich_loop_Cons del: enrich_loop.simps)
qed

lemma enrich_loop_idem:
  assumes "distinct (map fst ex)"
  shows "enrich_loop (enrich_loop args ex) ex = enrich_loop args ex"
proof -
  have "map_of (enrich_loop args ex) k = Some v"
    if kv: "(k, v) \<in> set ex" and f: "fillable (map_of (enrich_loop args ex) k)" for k v
  proof -
    from kv assms have m: "map_of ex k = Some v" by simp
    show ?thesis
    proof (cases "fillable (map_of args k)")
      case True
      then show ?thesis by (simp add: enrich_loop_lookup [OF assms] m)
    next
      case False
      then have "map_of (enrich_loop args ex) k = map_of args k"
        by (simp add: enrich_loop_lookup [OF assms])
      with f False show ?thesis by simp
    qed
  qed
  then have "\<forall>(k, v) \<in> set ex. \<not> fillable (map_of (enrich_loop args ex) k)
      \<or> map_of (enrich_loop args ex) k = Some v"
    by blast
  then show ?thesis by (rule enrich_loop_noop)
qed

lemma extractors_distinct:
  "distinct (map fst (extract_diagnose_args search text))"
  "distinct (map fst (extract_report_args search text))"
  "distinct (map fst (extract_checklist_args search text))"
  "distinct (map fst (extract_part_args search text))"
  "distinct (map fst (extract_followup_args search text))"
  "distinct (map fst (extract_dispatch_args search text))"
  "distinct (map fst (extract_invoice_args search text))"
  by (simp_all add: extract_diagnose_args_def extract_report_args_def extract_checklist_args_def
      extract_part_args_def extract_followup_args_def extract_dispatch_args_def
      extract_invoice_args_def Let_def distinct_update split: option.splits)

lemma EXTRACTORS_distinct:
  "EXTRACTORS nm = Some extractor \<Longrightarrow> distinct (map fst (extractor search text))"
  by (auto simp: EXTRACTORS_def extractors_distinct split: if_splits)

lemma example_invoice_args:
  "extract_invoice_args example_search ''invoice'' =
     [(''service_type'', VStr ''Locksmith Service''), (''customer_name'', VStr ''Customer''),
      (''amount'', VStr ''$150.00'')]"
  by code_simp

lemma example_fillable:
  "\<not> fillable (Some (VStr ''Sarah Miller''))"
  "fillable (Some (VStr '' N/A ''))"
  "fillable None"
  by code_simp+

text \<open>
  C5, as stated, fails in both directions. The value \<open>customer\<close> is equal to the
  placeholder \<open>Customer\<close> once both are lower-cased and trimmed, and the rule of
  \<open>generate_invoice\<close> produces \<open>Customer\<close> for that key, but the code compares the trimmed
  value as it is and leaves \<open>customer\<close> in place. The number 0 is present, is not the
  empty string and is no placeholder, but \<open>not existing\<close> holds for it and the code
  overwrites it.
\<close>

theorem enrich_fill_condition_counterexample:
  "spec_fillable (Some (VStr ''customer''))
   \<and> map_of (extract_invoice_args example_search ''invoice'') ''customer_name''
       = Some (VStr ''Customer'')
   \<and> map_of (enrich_arguments example_search ''generate_invoice''
         [(''customer_name'', VStr ''customer'')] ''invoice'') ''customer_name''
       = Some (VStr ''customer'')
   \<and> \<not> spec_fillable (Some (VInt 0))
   \<and> map_of (enrich_arguments example_search ''generate_invoice''
         [(''amount'', VInt 0)] ''invoice'') ''amount''
       = Some (VStr ''$150.00'')"
  by code_simp

text \<open>
  C5, amended. For every tool name, arguments mapping and utterance text: when the tool
  has an extraction rule, the value at a key that the rule produces is overwritten with
  the extracted value exactly when the existing value is absent, falsy (the empty
  string, \<open>None\<close>, 0 or \<open>False\<close>), or has a string form that, trimmed of leading and
  trailing whitespace and compared as it is, is one of the six placeholder strings;
  every other key keeps its value and no key is deleted. For a string value the
  condition is that the trimmed string is one of the placeholders. When no extraction
  rule exists for the tool name, the arguments are returned unchanged.
\<close>

theorem enrich_arguments_fill_condition:
  "(EXTRACTORS nm = None \<longrightarrow> enrich_arguments search nm args user_text = args) \<and>
   (\<forall>extractor. EXTRACTORS nm = Some extractor \<longrightarrow>
      (\<forall>key. map_of (enrich_arguments search nm args user_text) key =
         (if map_of (extractor search user_text) key \<noteq> None \<and> fillable (map_of args key)
          then map_of (extractor search user_text) key else map_of args key))) \<and>
   fillable (Some (VStr s)) = (strip s \<in> DEFAULT_VALUES)"
proof -
  have "fillable (Some (VStr s)) = (strip s \<in> DEFAULT_VALUES)"
    by (auto simp: fillable_def py_str_def DEFAULT_VALUES_def strip_def lstrip_def rstrip_def)
  then show ?thesis
    by (auto simp: enrich_arguments_def enrich_loop_lookup EXTRACTORS_distinct)
qed

theorem enrich_arguments_fill_condition_witness:
  "map_of (enrich_arguments example_search ''generate_invoice''
       [(''customer_name'', VStr ''Sarah Miller''), (''amount'', VStr '' N/A '')] ''invoice'')
     ''customer_name'' = Some (VStr ''Sarah Miller'')
   \<and> map_of (enrich_arguments example_search ''generate_invoice''
       [(''customer_name'', VStr ''Sarah Miller''), (''amount'', VStr '' N/A '')] ''invoice'')
     ''amount'' = Some (VStr ''$150.00'')
   \<and> map_of (enrich_arguments example_search ''generate_invoice''
       [(''customer_name'', VStr ''Sarah Miller''), (''amount'', VStr '' N/A '')] ''invoice'')
     ''service_type'' = Some (VStr ''Locksmith Service'')
   \<and> enrich_arguments example_search ''get_weather'' [(''location'', VStr [])] ''invoice''
     = [(''location'', VStr [])]"
proof -
  have rule: "EXTRACTORS ''generate_invoice'' = Some extract_invoice_args"
    and no_rule: "EXTRACTORS ''get_weather'' = None"
    by (simp_all add: EXTRACTORS_def)
  show ?thesis
    using
      enrich_arguments_fill_condition [of "''generate_invoice''" example_search
        "[(''customer_name'', VStr ''Sarah Miller''), (''amount'', VStr '' N/A '')]"
        "''invoice''" "[]"]
      enrich_arguments_fill_condition [of "''get_weather''" example_search
        "[(''location'', VStr [])]" "''invoice''" "[]"]
      rule no_rule
    by (simp add: example_invoice_args example_fillable)
qed

text \<open>
  C6. Enrichment is idempotent: for every tool name, arguments mapping and utterance
  text, enriching the enriched arguments again with the same name and text gives the
  enriched arguments.
\<close>

theorem enrich_arguments_idempotent:
  "enrich_arguments search nm (enrich_arguments search nm args user_text) user_text
     = enrich_arguments search nm args user_text"
  by (cases "EXTRACTORS nm")
     (simp_all add: enrich_arguments_def enrich_loop_idem EXTRACTORS_distinct)

section \<open>The keyword fallback: proofs\<close>

lemma fallback_loop_Cons:
  "fallback_loop search tn ut tlow ((p, t, ex, cl) # rest) (calls, nc) =
     (if t \<in> tn \<and> search p False tlow \<noteq> None
      then fallback_loop search tn ut tlow rest
             (calls @ [\<lparr>name = t, arguments = Some (ex search ut)\<rparr>], cl \<or> nc)
      else fallback_loop search tn ut tlow rest (calls, nc))"
  by (auto simp: Let_def)

lemma fallback_loop_calls:
  "fst (fallback_loop search tn ut tlow ps (calls, nc)) =
     calls @ map (\<lambda>(p, t, ex, cl). \<lparr>name = t, arguments = Some (ex search ut)\<rparr>)
       (filter (\<lambda>(p, t, ex, cl). t \<in> tn \<and> search p False tlow \<noteq> None) ps)"
proof (induction ps arbitrary: calls nc)
  case Nil
  then show ?case by simp
next
  case (Cons a ps)
  obtain p t ex cl where a: "a = (p, t, ex, cl)" by (cases a)
  show ?case
    unfolding a fallback_loop_Cons by (simp add: Cons.IH)
qed

lemma count_one:
  assumes "distinct (map f xs)" and "x \<in> set xs"
  shows "length (filter (\<lambda>y. f y = f x \<and> A y) xs) = (if A x then 1 else 0)"
  using assms
proof (induction xs)
  case Nil
  then show ?case by simp
next
  case (Cons a xs)
  show ?case
  proof (cases "a = x")
    case True
    with Cons.prems have "f x \<notin> f ` set xs" by simp
    then have "\<forall>y \<in> set xs. f y \<noteq> f x" by (metis imageI)
    then have "filter (\<lambda>y. f y = f x \<and> A y) xs = []" by (simp add: filter_empty_conv)
    then show ?thesis using True by simp
  next
    case False
    with Cons.prems have "x \<in> set xs" "f a \<noteq> f x" "distinct (map f xs)" by auto
    then show ?thesis using Cons.IH by simp
  qed
qed

lemma count_named:
  assumes "distinct (map (\<lambda>(p, t, ex, cl). t) ps)" and "(p, t, ex, cl) \<in> set ps"
  shows "length (filter (\<lambda>c. name c = t)
     (map (\<lambda>(p, t, ex, cl). \<lparr>name = t, arguments = Some (ex search ut)\<rparr>)
       (filter (\<lambda>(p, t, ex, cl). t \<in> tn \<and> search p False tlow \<noteq> None) ps)))
   = (if t \<in> tn \<and> search p False tlow \<noteq> None then 1 else 0)"
proof -
  have "length (filter (\<lambda>c. name c = t)
     (map (\<lambda>(p, t, ex, cl). \<lparr>name = t, arguments = Some (ex search ut)\<rparr>)
       (filter (\<lambda>(p, t, ex, cl). t \<in> tn \<and> search p False tlow \<noteq> None) ps)))
    = length (filter (\<lambda>y. (\<lambda>(p, t, ex, cl). t) y = (\<lambda>(p, t, ex, cl). t) (p, t, ex, cl)
         \<and> (\<lambda>(p, t, ex, cl). t \<in> tn \<and> search p False tlow \<noteq> None) y) ps)"
    by (simp add: filter_map comp_def case_prod_unfold conj_commute)
  also have "\<dots> = (if (\<lambda>(p, t, ex, cl). t \<in> tn \<and> search p False tlow \<noteq> None) (p, t, ex, cl)
       then 1 else 0)"
    using assms by (rule count_one)
  finally show ?thesis by simp
qed

lemma patterns_distinct: "distinct (map (\<lambda>(p, t, ex, cl). t) patterns)"
  by (simp add: patterns_def)

lemma keyword_fallback_calls_eq:
  "result_calls (fst (keyword_fallback env w messages tools)) =
     map (\<lambda>(p, t, ex, cl).
           \<lparr>name = t, arguments = Some (ex (re_search env) (user_text_of messages))\<rparr>)
       (filter (\<lambda>(p, t, ex, cl). t \<in> tool_name ` set tools
           \<and> re_search env p False (lower (user_text_of messages)) \<noteq> None) patterns)"
proof -
  have "result_calls (fst (keyword_fallback env w messages tools)) =
      fst (fallback_loop (re_search env) (tool_name ` set tools) (user_text_of messages)
        (lower (user_text_of messages)) patterns ([], False))"
    by (simp add: keyword_fallback_def Let_def time_time_def result_calls_def case_prod_unfold)
  then show ?thesis by (simp add: fallback_loop_calls)
qed

text \<open>
  C7. Every call that the keyword fallback emits names a tool of the supplied catalog,
  and for each activation pattern the number of emitted calls with its tool name is 1
  when the tool is in the catalog and the pattern is found in the lower-cased
  space-joined contents of the messages whose role is \<open>user\<close>, and 0 otherwise: a tool
  that is absent from the catalog produces no call even when its pattern is found.
\<close>

theorem keyword_fallback_calls:
  "(\<forall>c \<in> set (result_calls (fst (keyword_fallback env w messages tools))).
      name c \<in> tool_name ` set tools) \<and>
   (\<forall>(pattern, tname, extractor, is_cloud) \<in> set patterns.
      length (filter (\<lambda>c. name c = tname)
        (result_calls (fst (keyword_fallback env w messages tools))))
      = (if tname \<in> tool_name ` set tools \<and>
            re_search env pattern False
              (lower (join '' '' (map content (filter (\<lambda>m. role m = Some ''user'') messages))))
              \<noteq> None
         then 1 else 0))"
proof -
  have names: "name c \<in> tool_name ` set tools"
    if "c \<in> set (result_calls (fst (keyword_fallback env w messages tools)))" for c
    using that unfolding keyword_fallback_calls_eq by auto
  have count: "length (filter (\<lambda>c. name c = t)
        (result_calls (fst (keyword_fallback env w messages tools))))
      = (if t \<in> tool_name ` set tools \<and>
            re_search env p False (lower (user_text_of messages)) \<noteq> None
         then 1 else 0)"
    if "(p, t, ex, cl) \<in> set patterns" for p t ex cl
    unfolding keyword_fallback_calls_eq
    using patterns_distinct that by (rule count_named)
  show ?thesis
    using names count unfolding user_text_of_def by blast
qed

lemma example_activation:
  "re_search example_env ''invoice|bill|charge|receipt|payment'' False
     (lower (join '' '' (map content
        (filter (\<lambda>m. role m = Some ''user'') [\<lparr>role = Some ''user'', content = ''invoice''\<rparr>]))))
     \<noteq> None"
  by code_simp

theorem keyword_fallback_calls_witness:
  "length (filter (\<lambda>c. name c = ''generate_invoice'')
     (result_calls (fst (keyword_fallback example_env example_world
        [\<lparr>role = Some ''user'', content = ''invoice''\<rparr>] LOCKSMITH_TOOLS)))) = 1
   \<and> length (filter (\<lambda>c. name c = ''generate_invoice'')
     (result_calls (fst (keyword_fallback example_env example_world
        [\<lparr>role = Some ''user'', content = ''invoice''\<rparr>]
        [\<lparr>tool_name = ''lookup_part'', description = ''Look up a part''\<rparr>])))) = 0"
proof -
  have active: "(''invoice|bill|charge|receipt|payment'', ''generate_invoice'',
      extract_invoice_args, True) \<in> set patterns"
    by (simp add: patterns_def)
  have present: "''generate_invoice'' \<in> tool_name ` set LOCKSMITH_TOOLS"
    by (simp add: LOCKSMITH_TOOLS_def)
  have absent: "''generate_invoice'' \<notin>
      tool_name ` set [\<lparr>tool_name = ''lookup_part'', description = ''Look up a part''\<rparr>]"
    by simp
  have one: "length (filter (\<lambda>c. name c = ''generate_invoice'')
     (result_calls (fst (keyword_fallback example_env example_world
        [\<lparr>role = Some ''user'', content = ''invoice''\<rparr>] LOCKSMITH_TOOLS)))) = 1"
    using
      keyword_fallback_calls [of example_env example_world
        "[\<lparr>role = Some ''user'', content = ''invoice''\<rparr>]" LOCKSMITH_TOOLS,
        THEN conjunct2, THEN bspec, OF active]
      present example_activation
    by (simp del: set_simps image_set list.map)
  have none: "length (filter (\<lambda>c. name c = ''generate_invoice'')
     (result_calls (fst (keyword_fallback example_env example_world
        [\<lparr>role = Some ''user'', content = ''invoice''\<rparr>]
        [\<lparr>tool_name = ''lookup_part'', description = ''Look up a part''\<rparr>])))) = 0"
    using
      keyword_fallback_calls [of example_env example_world
        "[\<lparr>role = Some ''user'', content = ''invoice''\<rparr>]"
        "[\<lparr>tool_name = ''lookup_part'', description = ''Look up a part''\<rparr>]",
        THEN conjunct2, THEN bspec, OF active]
      absent
    by (simp del: set_simps image_set list.map)
  show ?thesis using one none by simp
qed

end
